theory Spec2Isabelle
  imports Main "HOL-Library.Multiset"
begin

section \<open>Data model\<close>

text \<open>
  The back end keeps its documents in MongoDB collections and reaches them through Mongoose
  models.  A collection is modelled as the list of its documents in natural (insertion)
  order: \<open>findOne\<close> returns the first document that matches, \<open>findOneAndUpdate\<close> changes
  the first document that matches, \<open>create\<close> and \<open>insertMany\<close> append.  An ObjectId is a
  natural number drawn from a counter, a JavaScript \<open>Date\<close> is its time value (milliseconds
  since the epoch) and a JavaScript number that the handlers only count with is an \<open>int\<close>.

  The schema files of the models are not part of the sources at hand, so what they would
  decide is a parameter (\<open>server\<close> below): the defaults of a freshly created
  \<open>SystemConfig\<close> and the validator of \<open>BookCopy.status\<close>.
\<close>

type_synonym oid = nat
type_synonym time = int

record systemConfig =
  maxBooksPerStudent :: int
  issueDaysLimit :: int
  finePerDay :: int

record user =
  u_id :: oid
  u_name :: string
  registerNumber :: string
  isActive :: bool

record book =
  b_id :: oid
  title :: string
  author :: "string option"
  isbn :: string
  department :: string
  totalCopies :: int
  availableCopies :: int

text \<open>
  \<open>copyFields\<close> is the plain object that a handler builds for \<open>insertMany\<close>;
  the stored document has the \<open>_id\<close> that the insert gives it.
\<close>

record copyFields =
  c_book :: oid
  copyNumber :: string
  c_status :: string

record bookCopy = copyFields +
  c_id :: oid

record transaction =
  t_id :: oid
  student :: oid
  t_book :: oid
  copyId :: string
  dueDate :: time
  t_status :: string
  isFinePaid :: bool
  fine :: "int option"
  returnDate :: "time option"

record auditLog =
  actor :: oid
  actorName :: string
  action :: string
  details :: string
  ip :: string
  createdAt :: time

record db =
  config :: "systemConfig option"
  users :: "user list"
  books :: "book list"
  copies :: "bookCopy list"
  transactions :: "transaction list"
  auditLogs :: "auditLog list"
  departments :: "string list"
  nextId :: oid

record server =
  tzOffset :: int
  configDefaults :: systemConfig
  statusValid :: "string \<Rightarrow> bool"

text \<open>
  \<open>tzOffset\<close> is the offset of the server's local time from UTC in milliseconds; the zone
  is taken to have one fixed offset (no daylight saving change), as the time zone of the
  rupee amounts in the messages has.  \<open>statusValid\<close> is the validator that the absent
  \<open>BookCopy\<close> schema attaches to \<open>status\<close>; \<open>save\<close> runs it, \<open>findOneAndUpdate\<close>
  does not.
\<close>

subsection \<open>Responses and exceptions\<close>

datatype body =
    Message string
  | IssueResult string transaction time
  | ReturnResult int string
  | BookDoc book
  | CopyDoc bookCopy
  | UploadResult int int "string list"
  | AuditLogs "auditLog list"

text \<open>
  \<open>Json code b\<close> is \<open>res.status(code).json(b)\<close>.  \<open>NoResponse\<close> is a handler whose
  promise was rejected before it wrote a response.
\<close>

datatype response = Json nat body | NoResponse

fun hasMessage :: "body \<Rightarrow> bool" where
  "hasMessage (Message m) = True"
| "hasMessage (IssueResult c t d) = True"
| "hasMessage (ReturnResult f n) = True"
| "hasMessage (BookDoc b) = False"
| "hasMessage (CopyDoc c) = False"
| "hasMessage (UploadResult a u es) = True"
| "hasMessage (AuditLogs ls) = False"

text \<open>
  Every \<open>await\<close> on a model call can reject (the connection is gone, a value does not cast,
  a validator or an index refuses).  Which calls of a request reject is a parameter of the
  handler: \<open>rej c = Some m\<close> says that the call at site \<open>c\<close> rejects with an error whose
  message is \<open>m\<close>.
\<close>

datatype db_call =
    ConfigFind | ConfigCreate | UserFind | TxnCount | BookFind | CopyClaim | BookInc
  | TxnCreate | Rollback | TxnFind | CopyCheck | TxnSave | CopyRelease | CopyFind
  | AuditUserFind | AuditCreate

type_synonym faults = "db_call \<Rightarrow> string option"

datatype outcome = Responded response | Threw string

definition await :: "faults \<Rightarrow> db_call \<Rightarrow> db \<Rightarrow> db \<times> outcome \<Rightarrow> db \<times> outcome" where
  "await rej c s k = (case rej c of Some m \<Rightarrow> (s, Threw m) | None \<Rightarrow> k)"

subsection \<open>Collections\<close>

fun updateOne :: "('a \<Rightarrow> bool) \<Rightarrow> ('a \<Rightarrow> 'a) \<Rightarrow> 'a list \<Rightarrow> 'a list" where
  "updateOne P f [] = []"
| "updateOne P f (x # xs) = (if P x then f x # xs else x # updateOne P f xs)"

fun deleteOne :: "('a \<Rightarrow> bool) \<Rightarrow> 'a list \<Rightarrow> 'a list" where
  "deleteOne P [] = []"
| "deleteOne P (x # xs) = (if P x then xs else x # deleteOne P xs)"

text \<open>\<open>findOneAndUpdate\<close> with \<open>{ new: true }\<close>: the document as updated, and the collection.\<close>

definition findOneAndUpdate ::
  "('a \<Rightarrow> bool) \<Rightarrow> ('a \<Rightarrow> 'a) \<Rightarrow> 'a list \<Rightarrow> 'a option \<times> 'a list" where
  "findOneAndUpdate P f xs = (map_option f (find P xs), updateOne P f xs)"

subsection \<open>Numbers in template strings\<close>

definition digit :: "nat \<Rightarrow> char" where
  "digit n = ''0123456789'' ! n"

function showNat :: "nat \<Rightarrow> string" where
  "showNat n = (if n < 10 then [digit n] else showNat (n div 10) @ [digit (n mod 10)])"
  by pat_completeness auto
termination
  by (relation "measure id") auto

definition showInt :: "int \<Rightarrow> string" where
  "showInt i = (if i < 0 then CHR ''-'' # showNat (nat (- i)) else showNat (nat i))"

text \<open>JavaScript truthiness of a value that is a string or \<open>undefined\<close>.\<close>

fun truthy :: "string option \<Rightarrow> bool" where
  "truthy None = False"
| "truthy (Some v) = (v \<noteq> [])"

section \<open>Audit controller\<close>

text \<open>\<open>logAudit\<close> swallows every error of its own calls and then writes no entry.\<close>

definition logAudit :: "faults \<Rightarrow> oid \<Rightarrow> string \<Rightarrow> string \<Rightarrow> time \<Rightarrow> db \<Rightarrow> db" where
  "logAudit rej actorId act det now s =
     (case rej AuditUserFind of Some m \<Rightarrow> s | None \<Rightarrow>
        let usr = find (\<lambda>u. u_id u = actorId) (users s) in
        (case rej AuditCreate of Some m \<Rightarrow> s | None \<Rightarrow>
           s\<lparr>auditLogs := auditLogs s @
               [\<lparr>actor = actorId,
                 actorName = (case usr of Some u \<Rightarrow> u_name u | None \<Rightarrow> ''Unknown''),
                 action = act, details = det, ip = ''0.0.0.0'', createdAt = now\<rparr>]\<rparr>))"

text \<open>
  \<open>AuditLog.find().sort({ createdAt: -1 }).limit(100)\<close>; \<open>rejected\<close> is the error of
  the query when it rejects.  Entries of one creation time come in the order of insertion.
\<close>

definition getAuditLogs :: "string option \<Rightarrow> db \<Rightarrow> response" where
  "getAuditLogs rejected s =
     (case rejected of
        Some m \<Rightarrow> Json 500 (Message m)
      | None \<Rightarrow> Json 200 (AuditLogs (take 100 (sort_key (\<lambda>l. - createdAt l) (auditLogs s)))))"

section \<open>Circulation controller\<close>

subsection \<open>Dates\<close>

definition msPerDay :: int where
  "msPerDay = 1000 * 60 * 60 * 24"

text \<open>\<open>d.setHours(0, 0, 0, 0)\<close>: the time value of local midnight of the day of \<open>d\<close>.\<close>

definition setHoursMidnight :: "int \<Rightarrow> time \<Rightarrow> time" where
  "setHoursMidnight tz t = t - (t + tz) mod msPerDay"

text \<open>\<open>d.setDate(d.getDate() + n)\<close>: the same local time of day, \<open>n\<close> days on.\<close>

definition addDays :: "time \<Rightarrow> int \<Rightarrow> time" where
  "addDays t n = t + n * msPerDay"

text \<open>\<open>Math.ceil(a / b)\<close> on integers, for a positive \<open>b\<close>.\<close>

definition ceilDiv :: "int \<Rightarrow> int \<Rightarrow> int" where
  "ceilDiv a b = - ((- a) div b)"


text \<open>Lines 100 to 111 of \<open>returnBook\<close>.\<close>

definition computeFine :: "int \<Rightarrow> systemConfig \<Rightarrow> time \<Rightarrow> time \<Rightarrow> int" where
  "computeFine tz cfg today due =
     (let todayMidnight = setHoursMidnight tz today;
          dueMidnight = setHoursMidnight tz due
      in if todayMidnight > dueMidnight
         then (let diffTime = \<bar>todayMidnight - dueMidnight\<bar>;
                   diffDays = ceilDiv diffTime msPerDay
               in diffDays * finePerDay cfg)
         else 0)"

subsection \<open>Requests\<close>

record issueReq =
  iq_studentId :: oid
  iq_isbn :: "string option"
  iq_copyId :: "string option"
  iq_user :: "oid option"

record returnReq =
  rq_copyId :: string
  rq_user :: "oid option"

subsection \<open>issueBook\<close>

text \<open>Lines 49 to 71: the copy is claimed; count it, write the transaction, answer.\<close>

definition issueRecord ::
  "faults \<Rightarrow> issueReq \<Rightarrow> time \<Rightarrow> time \<Rightarrow> systemConfig \<Rightarrow> user \<Rightarrow> bookCopy \<Rightarrow> db \<Rightarrow> db \<times> outcome" where
  "issueRecord rej req now logNow cfg stu targetCopy s =
     await rej BookInc s
      (let s1 = s\<lparr>books := updateOne (\<lambda>b. b_id b = c_book targetCopy)
                    (\<lambda>b. b\<lparr>availableCopies := availableCopies b - 1\<rparr>) (books s)\<rparr>;
           due = addDays now (issueDaysLimit cfg)
       in await rej TxnCreate s1
           (let txn = \<lparr>t_id = nextId s1, student = u_id stu, t_book = c_book targetCopy,
                       copyId = copyNumber targetCopy, dueDate = due, t_status = ''Issued'',
                       isFinePaid = False, fine = None, returnDate = None\<rparr>;
                s2 = s1\<lparr>transactions := transactions s1 @ [txn], nextId := Suc (nextId s1)\<rparr>;
                s3 = (case iq_user req of
                        None \<Rightarrow> s2
                      | Some uid \<Rightarrow>
                          logAudit rej uid ''ISSUE_BOOK''
                            (''Issued '' @ copyNumber targetCopy @ '' to '' @ registerNumber stu)
                            logNow s2)
            in (s3, Responded (Json 201 (IssueResult (copyNumber targetCopy) txn due)))))"

text \<open>Lines 27 to 47: claim a copy, the one named or any available copy of the title.\<close>

definition issueClaim ::
  "faults \<Rightarrow> issueReq \<Rightarrow> time \<Rightarrow> time \<Rightarrow> systemConfig \<Rightarrow> user \<Rightarrow> db \<Rightarrow> db \<times> outcome" where
  "issueClaim rej req now logNow cfg stu s =
     (if truthy (iq_copyId req) then
        await rej CopyClaim s
         (case findOneAndUpdate
                 (\<lambda>c. Some (copyNumber c) = iq_copyId req \<and> c_status c = ''Available'')
                 (\<lambda>c. c\<lparr>c_status := ''Issued''\<rparr>) (copies s) of
            (None, cs) \<Rightarrow>
              (s, Responded (Json 400 (Message ''Copy is not available (Already Issued or Lost)'')))
          | (Some targetCopy, cs) \<Rightarrow>
              issueRecord rej req now logNow cfg stu targetCopy (s\<lparr>copies := cs\<rparr>))
      else
        await rej BookFind s
         (case find (\<lambda>b. Some (isbn b) = iq_isbn req) (books s) of
            None \<Rightarrow> (s, Responded (Json 404 (Message ''Book ISBN not found'')))
          | Some bk \<Rightarrow>
              await rej CopyClaim s
               (case findOneAndUpdate
                       (\<lambda>c. c_book c = b_id bk \<and> c_status c = ''Available'')
                       (\<lambda>c. c\<lparr>c_status := ''Issued''\<rparr>) (copies s) of
                  (None, cs) \<Rightarrow>
                    (s, Responded (Json 400 (Message ''No copies currently available'')))
                | (Some targetCopy, cs) \<Rightarrow>
                    issueRecord rej req now logNow cfg stu targetCopy (s\<lparr>copies := cs\<rparr>))))"

text \<open>Lines 18 to 25: the student and the borrow limit.\<close>

definition issueCheck ::
  "faults \<Rightarrow> issueReq \<Rightarrow> time \<Rightarrow> time \<Rightarrow> systemConfig \<Rightarrow> db \<Rightarrow> db \<times> outcome" where
  "issueCheck rej req now logNow cfg s =
     await rej UserFind s
      (case find (\<lambda>u. u_id u = iq_studentId req) (users s) of
         None \<Rightarrow> (s, Responded (Json 404 (Message ''Student not found'')))
       | Some stu \<Rightarrow>
           if \<not> isActive stu
           then (s, Responded (Json 400 (Message ''Student account is blocked'')))
           else
             await rej TxnCount s
              (let activeCount = int (length (filter
                     (\<lambda>t. student t = u_id stu \<and> t_status t = ''Issued'') (transactions s)))
               in if activeCount \<ge> maxBooksPerStudent cfg
                  then (s, Responded (Json 400 (Message
                         (''Limit reached ('' @ showInt (maxBooksPerStudent cfg) @ '' books max)''))))
                  else issueClaim rej req now logNow cfg stu s))"

text \<open>
  Lines 15 and 16: \<open>SystemConfig.findOne()\<close>, and \<open>SystemConfig.create({})\<close> with the
  schema's defaults when there is no configuration document yet.
\<close>

definition issueTry :: "server \<Rightarrow> faults \<Rightarrow> issueReq \<Rightarrow> time \<Rightarrow> time \<Rightarrow> db \<Rightarrow> db \<times> outcome" where
  "issueTry sv rej req now logNow s =
     await rej ConfigFind s
      (case config s of
         Some cfg \<Rightarrow> issueCheck rej req now logNow cfg s
       | None \<Rightarrow>
           await rej ConfigCreate s
            (issueCheck rej req now logNow (configDefaults sv)
               (s\<lparr>config := Some (configDefaults sv)\<rparr>)))"

text \<open>
  Lines 73 to 78, the handler of whatever the \<open>try\<close> block threw: with a \<open>copyId\<close> in the
  request it first awaits the write that marks that copy available, and only then answers.
  When that write rejects too, the rejection leaves the handler and nothing is answered.
\<close>

definition issueBook :: "server \<Rightarrow> faults \<Rightarrow> issueReq \<Rightarrow> time \<Rightarrow> time \<Rightarrow> db \<Rightarrow> db \<times> response" where
  "issueBook sv rej req now logNow s =
     (case issueTry sv rej req now logNow s of
        (s', Responded r) \<Rightarrow> (s', r)
      | (s', Threw m) \<Rightarrow>
          if truthy (iq_copyId req) then
            (case rej Rollback of
               Some m' \<Rightarrow> (s', NoResponse)
             | None \<Rightarrow>
                 (s'\<lparr>copies := updateOne (\<lambda>c. Some (copyNumber c) = iq_copyId req)
                                 (\<lambda>c. c\<lparr>c_status := ''Available''\<rparr>) (copies s')\<rparr>,
                  Json 500 (Message m)))
          else (s', Json 500 (Message m)))"

subsection \<open>returnBook\<close>

text \<open>
  Lines 100 to 130, with the transaction found.  \<open>today\<close> is the clock at line 100 and
  \<open>retNow\<close> the clock at line 113.  \<open>stu\<close> is what \<open>populate('student')\<close> put in the
  transaction: the student's document, or \<open>null\<close> when there is none, and then reading
  its name for the answer throws.  Reading \<open>copy.book\<close> throws when the copy is gone.
\<close>

definition returnSettle ::
  "server \<Rightarrow> faults \<Rightarrow> returnReq \<Rightarrow> time \<Rightarrow> time \<Rightarrow> time \<Rightarrow> systemConfig \<Rightarrow>
     transaction \<Rightarrow> user option \<Rightarrow> db \<Rightarrow> db \<times> outcome" where
  "returnSettle sv rej req today retNow logNow cfg txn stu s =
     (let fn = computeFine (tzOffset sv) cfg today (dueDate txn) in
      await rej TxnSave s
       (let s1 = s\<lparr>transactions := updateOne (\<lambda>t. t_id t = t_id txn)
                     (\<lambda>t. t\<lparr>returnDate := Some retNow, t_status := ''Returned'',
                            fine := Some fn, isFinePaid := (fn = 0)\<rparr>) (transactions s)\<rparr>
        in await rej CopyRelease s1
            (let s2 = s1\<lparr>copies := updateOne (\<lambda>c. copyNumber c = rq_copyId req)
                          (\<lambda>c. c\<lparr>c_status := ''Available''\<rparr>) (copies s1)\<rparr>
             in await rej CopyFind s2
                 (case find (\<lambda>c. copyNumber c = rq_copyId req) (copies s2) of
                    None \<Rightarrow> (s2, Threw ''Cannot read properties of null'')
                  | Some cp \<Rightarrow>
                      await rej BookInc s2
                       (let s3 = s2\<lparr>books := updateOne (\<lambda>b. b_id b = c_book cp)
                                    (\<lambda>b. b\<lparr>availableCopies := availableCopies b + 1\<rparr>) (books s2)\<rparr>;
                            s4 = (case rq_user req of
                                    None \<Rightarrow> s3
                                  | Some uid \<Rightarrow>
                                      logAudit rej uid ''RETURN_BOOK''
                                        (''Returned '' @ rq_copyId req @ ''. Fine: '' @
                                           [CHR 0xE2, CHR 0x82, CHR 0xB9] @ showInt fn)
                                        logNow s3)
                        in case stu of
                             None \<Rightarrow> (s4, Threw ''Cannot read properties of null'')
                           | Some u \<Rightarrow>
                               (s4, Responded (Json 200 (ReturnResult fn (u_name u)))))))))"

text \<open>Lines 90 to 98: the active transaction of the copy, or why there is none.\<close>

definition returnFind ::
  "server \<Rightarrow> faults \<Rightarrow> returnReq \<Rightarrow> time \<Rightarrow> time \<Rightarrow> time \<Rightarrow> systemConfig \<Rightarrow> db \<Rightarrow> db \<times> outcome" where
  "returnFind sv rej req today retNow logNow cfg s =
     await rej TxnFind s
      (case find (\<lambda>t. copyId t = rq_copyId req \<and> t_status t = ''Issued'') (transactions s) of
         None \<Rightarrow>
           await rej CopyCheck s
            (case find (\<lambda>c. copyNumber c = rq_copyId req) (copies s) of
               None \<Rightarrow>
                 (s, Responded (Json 404 (Message ''No active Issue record found for this copy.'')))
             | Some checkCopy \<Rightarrow>
                 if c_status checkCopy = ''Available''
                 then (s, Responded (Json 400 (Message ''Book is already marked Returned.'')))
                 else (s, Responded (Json 404 (Message ''No active Issue record found for this copy.''))))
       | Some txn \<Rightarrow>
           returnSettle sv rej req today retNow logNow cfg txn
             (find (\<lambda>u. u_id u = student txn) (users s)) s)"

definition returnTry ::
  "server \<Rightarrow> faults \<Rightarrow> returnReq \<Rightarrow> time \<Rightarrow> time \<Rightarrow> time \<Rightarrow> db \<Rightarrow> db \<times> outcome" where
  "returnTry sv rej req today retNow logNow s =
     await rej ConfigFind s
      (case config s of
         Some cfg \<Rightarrow> returnFind sv rej req today retNow logNow cfg s
       | None \<Rightarrow>
           await rej ConfigCreate s
            (returnFind sv rej req today retNow logNow (configDefaults sv)
               (s\<lparr>config := Some (configDefaults sv)\<rparr>)))"

definition returnBook ::
  "server \<Rightarrow> faults \<Rightarrow> returnReq \<Rightarrow> time \<Rightarrow> time \<Rightarrow> time \<Rightarrow> db \<Rightarrow> db \<times> response" where
  "returnBook sv rej req today retNow logNow s =
     (case returnTry sv rej req today retNow logNow s of
        (s', Responded r) \<Rightarrow> (s', r)
      | (s', Threw m) \<Rightarrow> (s', Json 500 (Message m)))"

text \<open>The configuration a handler works with: the stored one, else the schema's defaults.\<close>

definition effectiveConfig :: "server \<Rightarrow> db \<Rightarrow> systemConfig" where
  "effectiveConfig sv s = (case config s of Some c \<Rightarrow> c | None \<Rightarrow> configDefaults sv)"

definition noFaults :: faults where
  "noFaults = (\<lambda>c. None)"

section \<open>Book controller\<close>

text \<open>
  The model calls of these handlers are taken to resolve; their \<open>catch\<close> blocks are
  reached by what the handler's own code throws: a \<open>TypeError\<close> on a book that is
  \<open>null\<close>, and the validator of the status on \<open>copy.save()\<close>.  The message of a
  thrown error is the runtime's and is shortened here.  Collections have no unique index.
\<close>

definition insertMany :: "copyFields list \<Rightarrow> db \<Rightarrow> db" where
  "insertMany docs s =
     s\<lparr>copies := copies s @
          map (\<lambda>(i, d). \<lparr>c_book = c_book d, copyNumber = copyNumber d,
                          c_status = c_status d, c_id = i\<rparr>)
              (enumerate (nextId s) docs),
       nextId := nextId s + length docs\<rparr>"

subsection \<open>createBook\<close>

record createReq =
  cb_title :: string
  cb_author :: "string option"
  cb_isbn :: string
  cb_department :: string
  cb_quantity :: int

text \<open>\<open>departments\<close> holds the \<open>code\<close> of every Department document.\<close>

definition createBook :: "createReq \<Rightarrow> db \<Rightarrow> db \<times> response" where
  "createBook req s =
     (case find (\<lambda>code. code = cb_department req) (departments s) of
        None \<Rightarrow>
          (s, Json 400 (Message
                (''Invalid Department Code: '' @ [CHR 0x27] @ cb_department req @ [CHR 0x27])))
      | Some validDept \<Rightarrow>
          (case find (\<lambda>b. isbn b = cb_isbn req) (books s) of
             Some existingBook \<Rightarrow> (s, Json 400 (Message ''Book with this ISBN already exists''))
           | None \<Rightarrow>
               (let newBook = \<lparr>b_id = nextId s, title = cb_title req, author = cb_author req,
                               isbn = cb_isbn req, department = cb_department req,
                               totalCopies = cb_quantity req,
                               availableCopies = cb_quantity req\<rparr>;
                    s1 = s\<lparr>books := books s @ [newBook], nextId := Suc (nextId s)\<rparr>;
                    cps = map (\<lambda>i. \<lparr>c_book = b_id newBook,
                                      copyNumber = cb_isbn req @ ''-'' @ showInt i,
                                      c_status = ''Available''\<rparr>) [1..cb_quantity req]
                in (insertMany cps s1, Json 201 (BookDoc newBook)))))"

subsection \<open>addCopies\<close>

record addReq =
  ac_bookId :: oid
  ac_count :: int

definition addCopies :: "addReq \<Rightarrow> db \<Rightarrow> db \<times> response" where
  "addCopies req s =
     (case find (\<lambda>b. b_id b = ac_bookId req) (books s) of
        None \<Rightarrow> (s, Json 404 (Message ''Book not found''))
      | Some bk \<Rightarrow>
          (let startNum = totalCopies bk + 1;
               cps = map (\<lambda>i. \<lparr>c_book = b_id bk,
                                 copyNumber = isbn bk @ ''-'' @ showInt (startNum + i),
                                 c_status = ''Available''\<rparr>) [0..ac_count req - 1];
               s1 = insertMany cps s;
               s2 = s1\<lparr>books := updateOne (\<lambda>b. b_id b = b_id bk)
                             (\<lambda>b. b\<lparr>totalCopies := totalCopies bk + ac_count req,
                                    availableCopies := availableCopies bk + ac_count req\<rparr>)
                             (books s1)\<rparr>
           in (s2, Json 200 (Message (showInt (ac_count req) @ '' Copies Added'')))))"

subsection \<open>deleteCopy\<close>

definition deleteCopy :: "oid \<Rightarrow> db \<Rightarrow> db \<times> response" where
  "deleteCopy cid s =
     (case find (\<lambda>c. c_id c = cid) (copies s) of
        None \<Rightarrow> (s, Json 404 (Message ''Copy not found''))
      | Some cp \<Rightarrow>
          (let bko = find (\<lambda>b. b_id b = c_book cp) (books s);
               s1 = s\<lparr>copies := deleteOne (\<lambda>c. c_id c = cid) (copies s)\<rparr>
           in case bko of
                None \<Rightarrow> (s1, Json 200 (Message ''Copy deleted''))
              | Some bk \<Rightarrow>
                  (let avail = (if c_status cp = ''Available''
                                then availableCopies bk - 1 else availableCopies bk)
                   in (s1\<lparr>books := updateOne (\<lambda>b. b_id b = b_id bk)
                                 (\<lambda>b. b\<lparr>totalCopies := totalCopies bk - 1,
                                        availableCopies := avail\<rparr>) (books s1)\<rparr>,
                       Json 200 (Message ''Copy deleted'')))))"

subsection \<open>updateCopyStatus\<close>

text \<open>
  The counter is changed on the fetched book before anything is saved; with no book the
  change throws.  \<open>copy.save()\<close> runs the schema's validator on the new status and writes
  nothing when it refuses; \<open>book.save()\<close> comes after it and throws when there is no book.
\<close>

definition updateCopyStatus :: "server \<Rightarrow> oid \<Rightarrow> string \<Rightarrow> db \<Rightarrow> db \<times> response" where
  "updateCopyStatus sv cid newStatus s =
     (case find (\<lambda>c. c_id c = cid) (copies s) of
        None \<Rightarrow> (s, Json 404 (Message ''Copy not found''))
      | Some cp \<Rightarrow>
          (let bko = find (\<lambda>b. b_id b = c_book cp) (books s);
               delta = (if c_status cp = ''Available'' \<and> newStatus \<noteq> ''Available'' then - 1
                        else if c_status cp \<noteq> ''Available'' \<and> newStatus = ''Available'' then 1
                        else 0)
           in if delta \<noteq> 0 \<and> bko = None
              then (s, Json 500 (Message ''Cannot read properties of null''))
              else if \<not> statusValid sv newStatus
              then (s, Json 500 (Message ''BookCopy validation failed''))
              else
                (let s1 = s\<lparr>copies := updateOne (\<lambda>c. c_id c = cid)
                                (\<lambda>c. c\<lparr>c_status := newStatus\<rparr>) (copies s)\<rparr>
                 in case bko of
                      None \<Rightarrow> (s1, Json 500 (Message ''Cannot read properties of null''))
                    | Some bk \<Rightarrow>
                        (s1\<lparr>books := updateOne (\<lambda>b. b_id b = b_id bk)
                                 (\<lambda>b. b\<lparr>availableCopies := availableCopies bk + delta\<rparr>)
                                 (books s1)\<rparr>,
                         Json 200 (CopyDoc (cp\<lparr>c_status := newStatus\<rparr>))))))"

subsection \<open>uploadBookCSV\<close>




















section \<open>Properties of the collections\<close>

definition copyStates :: "string list" where
  "copyStates = [''Available'', ''Issued'', ''Lost'']"

definition statusesOk :: "db \<Rightarrow> bool" where
  "statusesOk s = list_all (\<lambda>c. c_status c \<in> set copyStates) (copies s)"

text \<open>
  The counters of a book agree with the copies of the book that the collection holds.
\<close>

definition bookCounted :: "bookCopy list \<Rightarrow> book \<Rightarrow> bool" where
  "bookCounted cs b =
     (availableCopies b =
        int (length (filter (\<lambda>c. c_book c = b_id b \<and> c_status c = ''Available'') cs)) \<and>
      totalCopies b = int (length (filter (\<lambda>c. c_book c = b_id b) cs)))"

definition countersOk :: "db \<Rightarrow> bool" where
  "countersOk s = list_all (bookCounted (copies s)) (books s)"



text \<open>No book has an id that the id counter is still to give out.\<close>

definition idsFresh :: "db \<Rightarrow> bool" where
  "idsFresh s = list_all (\<lambda>b. b_id b < nextId s) (books s)"

text \<open>No copy refers to a book id that the id counter is still to give out.\<close>

definition refsFresh :: "db \<Rightarrow> bool" where
  "refsFresh s = list_all (\<lambda>c. c_book c < nextId s) (copies s)"

text \<open>No two books share an id.\<close>

definition booksDistinct :: "db \<Rightarrow> bool" where
  "booksDistinct s = distinct (map b_id (books s))"

section \<open>A small library\<close>

text \<open>
  A server in Indian Standard Time with a limit of 3 books, 15 days and a fine of 5 a day,
  and a library with one title, two copies and one loan.
\<close>

definition sampleServer :: server where
  "sampleServer =
     \<lparr>tzOffset = 19800000,
      configDefaults = \<lparr>maxBooksPerStudent = 3, issueDaysLimit = 15, finePerDay = 5\<rparr>,
      statusValid = (\<lambda>st. st \<in> set copyStates)\<rparr>"

definition asha :: user where
  "asha = \<lparr>u_id = 1, u_name = ''Asha'', registerNumber = ''R001'', isActive = True\<rparr>"

definition ravi :: user where
  "ravi = \<lparr>u_id = 2, u_name = ''Ravi'', registerNumber = ''R002'', isActive = True\<rparr>"

definition sampleBook :: book where
  "sampleBook =
     \<lparr>b_id = 10, title = ''Algorithms'', author = Some ''Cormen'', isbn = ''978-1'',
      department = ''CSE'', totalCopies = 2, availableCopies = 1\<rparr>"

definition sampleLoan :: transaction where
  "sampleLoan =
     \<lparr>t_id = 30, student = 1, t_book = 10, copyId = ''978-1-1'', dueDate = 1700000000000,
      t_status = ''Issued'', isFinePaid = False, fine = None, returnDate = None\<rparr>"

definition sampleDb :: db where
  "sampleDb =
     \<lparr>config = None,
      users = [asha, ravi],
      books = [sampleBook],
      copies = [\<lparr>c_book = 10, copyNumber = ''978-1-1'', c_status = ''Issued'', c_id = 20\<rparr>,
                \<lparr>c_book = 10, copyNumber = ''978-1-2'', c_status = ''Available'', c_id = 21\<rparr>],
      transactions = [sampleLoan],
      auditLogs = [],
      departments = [''CSE''],
      nextId = 31\<rparr>"

definition sampleReturn :: returnReq where
  "sampleReturn = \<lparr>rq_copyId = ''978-1-1'', rq_user = None\<rparr>"


definition sampleIssue :: issueReq where
  "sampleIssue = \<lparr>iq_studentId = 2, iq_isbn = None, iq_copyId = Some ''978-1-2'', iq_user = None\<rparr>"

definition strictDb :: db where
  "strictDb = sampleDb\<lparr>config := Some \<lparr>maxBooksPerStudent = 1, issueDaysLimit = 7, finePerDay = 2\<rparr>\<rparr>"

definition ashaAgain :: issueReq where
  "ashaAgain = \<lparr>iq_studentId = 1, iq_isbn = Some ''978-1'', iq_copyId = None, iq_user = None\<rparr>"

text \<open>The write of the transaction is refused; every other call resolves.\<close>

definition txnCreateFails :: faults where
  "txnCreateFails = (\<lambda>c. if c = TxnCreate then Some ''Transaction validation failed'' else None)"

text \<open>The database cannot be reached: every call rejects.\<close>

definition dbDown :: faults where
  "dbDown = (\<lambda>c. Some ''buffering timed out'')"


section \<open>A loan, a status edit and a return\<close>

text \<open>
  A library with one student and no books; then a title with one copy is created, the
  copy is issued to the student, the copy's status is edited back to Available while the
  loan is open, and the copy is returned.
\<close>

definition newLibrary :: db where
  "newLibrary =
     \<lparr>config = None, users = [asha], books = [], copies = [], transactions = [],
      auditLogs = [], departments = [''CSE''], nextId = 100\<rparr>"

definition afterCreate :: db where
  "afterCreate =
     fst (createBook \<lparr>cb_title = ''Algorithms'', cb_author = Some ''Cormen'', cb_isbn = ''978-1'',
                       cb_department = ''CSE'', cb_quantity = 1\<rparr> newLibrary)"

definition afterIssue :: db where
  "afterIssue =
     fst (issueBook sampleServer noFaults
            \<lparr>iq_studentId = 1, iq_isbn = None, iq_copyId = Some ''978-1-1'', iq_user = None\<rparr>
            1700000000000 1700000000001 afterCreate)"

definition afterEdit :: db where
  "afterEdit = fst (updateCopyStatus sampleServer 101 ''Available'' afterIssue)"

definition lateReturn :: "db \<times> response" where
  "lateReturn =
     returnBook sampleServer noFaults \<lparr>rq_copyId = ''978-1-1'', rq_user = None\<rparr>
       1700300000000 1700300000500 1700300000900 afterEdit"

text \<open>An audit log of 150 entries, written one millisecond apart.\<close>

definition busyDb :: db where
  "busyDb =
     newLibrary\<lparr>auditLogs :=
       map (\<lambda>i. \<lparr>actor = 1, actorName = ''Asha'', action = ''ISSUE_BOOK'', details = [],
                  ip = ''0.0.0.0'', createdAt = int i\<rparr>) [0 ..< 150]\<rparr>"

section \<open>What the handlers are to achieve\<close>

text \<open>The transaction that an issue writes for the copy \<open>c\<close> it claimed.\<close>

definition issuedTxn :: "db \<Rightarrow> systemConfig \<Rightarrow> user \<Rightarrow> bookCopy \<Rightarrow> time \<Rightarrow> transaction" where
  "issuedTxn s cfg stu c now =
     \<lparr>t_id = nextId s, student = u_id stu, t_book = c_book c, copyId = copyNumber c,
      dueDate = addDays now (issueDaysLimit cfg), t_status = ''Issued'',
      isFinePaid = False, fine = None, returnDate = None\<rparr>"

text \<open>What the save of a return writes on the stored transaction.\<close>

definition settled :: "server \<Rightarrow> systemConfig \<Rightarrow> time \<Rightarrow> time \<Rightarrow> transaction \<Rightarrow> transaction \<Rightarrow> transaction" where
  "settled sv cfg today retNow txn t =
     t\<lparr>returnDate := Some retNow, t_status := ''Returned'',
       fine := Some (computeFine (tzOffset sv) cfg today (dueDate txn)),
       isFinePaid := (computeFine (tzOffset sv) cfg today (dueDate txn) = 0)\<rparr>"


text \<open>
  An answer of the issue and return handlers: one of the status codes they use, with a
  body that has a message.
\<close>

fun answered :: "response \<Rightarrow> bool" where
  "answered (Json code b) = (code \<in> set [200, 201, 400, 404, 500] \<and> hasMessage b)"
| "answered NoResponse = False"

fun answeredOrThrew :: "outcome \<Rightarrow> bool" where
  "answeredOrThrew (Responded r) = answered r"
| "answeredOrThrew (Threw m) = True"

text \<open>The documents that \<open>insertMany\<close> stores for the objects \<open>docs\<close>, ids from \<open>n\<close> on.\<close>

definition stored :: "oid \<Rightarrow> copyFields list \<Rightarrow> bookCopy list" where
  "stored n docs =
     map (\<lambda>(i, d). \<lparr>c_book = c_book d, copyNumber = copyNumber d,
                     c_status = c_status d, c_id = i\<rparr>) (enumerate n docs)"

section \<open>Lists as collections\<close>

lemma find_updateOne:
  "(\<And>x. P x \<Longrightarrow> P (f x)) \<Longrightarrow> find P (updateOne P f xs) = map_option f (find P xs)"
  by (induction xs) auto

lemma find_Some_mem: "find P xs = Some x \<Longrightarrow> x \<in> set xs \<and> P x"
  by (induction xs) (auto split: if_splits)

lemma find_None_all: "(find P xs = None) = (\<forall>x\<in>set xs. \<not> P x)"
  by (induction xs) auto

section \<open>The audit helper touches the audit log only\<close>

lemma logAudit_frame:
  "config (logAudit rej a act d n s) = config s"
  "users (logAudit rej a act d n s) = users s"
  "books (logAudit rej a act d n s) = books s"
  "copies (logAudit rej a act d n s) = copies s"
  "transactions (logAudit rej a act d n s) = transactions s"
  "departments (logAudit rej a act d n s) = departments s"
  "nextId (logAudit rej a act d n s) = nextId s"
  by (simp_all add: logAudit_def Let_def split: option.splits)

section \<open>The fine\<close>



section \<open>What returnBook writes to the transaction\<close>







section \<open>Issue and return\<close>

lemma updateOne_split:
  "find P xs = Some c \<Longrightarrow>
     \<exists>pre post. xs = pre @ c # post \<and> (\<forall>x\<in>set pre. \<not> P x) \<and> P c \<and>
        updateOne P f xs = pre @ f c # post"
proof (induction xs)
  case Nil
  then show ?case by simp
next
  case (Cons x xs)
  show ?case
  proof (cases "P x")
    case True
    with Cons.prems have "x = c" by simp
    with True have "x # xs = [] @ c # xs \<and> (\<forall>y\<in>set []. \<not> P y) \<and> P c \<and>
        updateOne P f (x # xs) = [] @ f c # xs" by simp
    then show ?thesis by blast
  next
    case False
    with Cons.prems have "find P xs = Some c" by simp
    from Cons.IH[OF this] obtain pre post where
      "xs = pre @ c # post" "\<forall>y\<in>set pre. \<not> P y" "P c" "updateOne P f xs = pre @ f c # post"
      by blast
    with False have "x # xs = (x # pre) @ c # post \<and> (\<forall>y\<in>set (x # pre). \<not> P y) \<and> P c \<and>
        updateOne P f (x # xs) = (x # pre) @ f c # post" by simp
    then show ?thesis by blast
  qed
qed

lemma updateOne_none: "find P xs = None \<Longrightarrow> updateOne P f xs = xs"
  by (induction xs) (auto split: if_splits)

lemma issueRecord_success:
  assumes "issueRecord rej req now logNow cfg stu tc s = (s', Responded r)"
  shows "r = Json 201 (IssueResult (copyNumber tc) (issuedTxn s cfg stu tc now)
                 (addDays now (issueDaysLimit cfg))) \<and>
         copies s' = copies s \<and> users s' = users s \<and> config s' = config s \<and>
         books s' = updateOne (\<lambda>b. b_id b = c_book tc)
                      (\<lambda>b. b\<lparr>availableCopies := availableCopies b - 1\<rparr>) (books s) \<and>
         transactions s' = transactions s @ [issuedTxn s cfg stu tc now]"
  using assms
  by (auto simp: issueRecord_def await_def Let_def logAudit_frame issuedTxn_def
      split: option.splits)

lemma issueClaim_success:
  assumes "issueClaim rej req now logNow cfg stu s = (s', Responded (Json 201 b))"
  shows "\<exists>pre c post. copies s = pre @ c # post \<and> c_status c = ''Available'' \<and>
           (truthy (iq_copyId req) \<longrightarrow> iq_copyId req = Some (copyNumber c)) \<and>
           copies s' = pre @ c\<lparr>c_status := ''Issued''\<rparr> # post \<and>
           users s' = users s \<and> config s' = config s \<and>
           books s' = updateOne (\<lambda>b. b_id b = c_book c)
                      (\<lambda>b. b\<lparr>availableCopies := availableCopies b - 1\<rparr>) (books s) \<and>
           transactions s' = transactions s @ [issuedTxn s cfg stu c now] \<and>
           b = IssueResult (copyNumber c) (issuedTxn s cfg stu c now)
                 (addDays now (issueDaysLimit cfg))"
proof -
  let ?f = "\<lambda>c::bookCopy. c\<lparr>c_status := ''Issued''\<rparr>"
  have step: "\<exists>pre c post. copies s = pre @ c # post \<and> c_status c = ''Available'' \<and>
           (truthy (iq_copyId req) \<longrightarrow> iq_copyId req = Some (copyNumber c)) \<and>
           copies s' = pre @ ?f c # post \<and>
           users s' = users s \<and> config s' = config s \<and>
           books s' = updateOne (\<lambda>b. b_id b = c_book c)
                      (\<lambda>b. b\<lparr>availableCopies := availableCopies b - 1\<rparr>) (books s) \<and>
           transactions s' = transactions s @ [issuedTxn s cfg stu c now] \<and>
           b = IssueResult (copyNumber c) (issuedTxn s cfg stu c now)
                 (addDays now (issueDaysLimit cfg))"
    if fnd: "find P (copies s) = Some c0"
      and P: "\<And>x. P x \<Longrightarrow> c_status x = ''Available'' \<and>
                (truthy (iq_copyId req) \<longrightarrow> iq_copyId req = Some (copyNumber x))"
      and rec: "issueRecord rej req now logNow cfg stu (?f c0)
                  (s\<lparr>copies := updateOne P ?f (copies s)\<rparr>) = (s', Responded (Json 201 b))"
    for P c0
  proof -
    from updateOne_split[OF fnd, of ?f] obtain pre post where
      sp: "copies s = pre @ c0 # post" "P c0" "updateOne P ?f (copies s) = pre @ ?f c0 # post"
      by blast
    from issueRecord_success[OF rec] sp P[OF sp(2)] show ?thesis
      by (auto simp: issuedTxn_def)
  qed
  show ?thesis
  proof (cases "truthy (iq_copyId req)")
    case True
    let ?P = "\<lambda>c. Some (copyNumber c) = iq_copyId req \<and> c_status c = ''Available''"
    from assms True obtain c0 where "find ?P (copies s) = Some c0"
      and "issueRecord rej req now logNow cfg stu (?f c0)
                  (s\<lparr>copies := updateOne ?P ?f (copies s)\<rparr>) = (s', Responded (Json 201 b))"
      by (auto simp: issueClaim_def await_def findOneAndUpdate_def split: option.splits)
    then show ?thesis by (intro step[of ?P c0]) auto
  next
    case False
    from assms False obtain bk :: book and c0 where
      "find (\<lambda>c. c_book c = b_id bk \<and> c_status c = ''Available'') (copies s) = Some c0"
      and "issueRecord rej req now logNow cfg stu (?f c0)
                  (s\<lparr>copies := updateOne (\<lambda>c. c_book c = b_id bk \<and> c_status c = ''Available'') ?f (copies s)\<rparr>)
             = (s', Responded (Json 201 b))"
      by (auto simp: issueClaim_def await_def findOneAndUpdate_def split: option.splits)
    then show ?thesis using False
      by (intro step[of "\<lambda>c. c_book c = b_id bk \<and> c_status c = ''Available''" c0]) auto
  qed
qed

lemma issueCheck_success:
  assumes "issueCheck rej req now logNow cfg s = (s', Responded (Json 201 b))"
  shows "\<exists>stu. find (\<lambda>u. u_id u = iq_studentId req) (users s) = Some stu \<and> isActive stu \<and>
           int (length (filter (\<lambda>t. student t = u_id stu \<and> t_status t = ''Issued'')
                  (transactions s))) < maxBooksPerStudent cfg \<and>
           issueClaim rej req now logNow cfg stu s = (s', Responded (Json 201 b))"
  using assms
  by (auto simp: issueCheck_def await_def Let_def split: option.splits if_splits)

lemma issueTry_success:
  assumes "issueTry sv rej req now logNow s = (s', Responded (Json 201 b))"
  shows "issueCheck rej req now logNow (effectiveConfig sv s)
           (case config s of Some c \<Rightarrow> s | None \<Rightarrow> s\<lparr>config := Some (configDefaults sv)\<rparr>)
         = (s', Responded (Json 201 b))"
  using assms
  by (auto simp: issueTry_def await_def effectiveConfig_def split: option.splits)

lemma issueBook_Responded:
  "issueBook sv rej req now logNow s = (s', Json 201 b) \<Longrightarrow>
     issueTry sv rej req now logNow s = (s', Responded (Json 201 b))"
  by (auto simp: issueBook_def split: prod.splits outcome.splits option.splits if_splits)

lemma issueBook_success:
  assumes "issueBook sv rej req now logNow s = (s', Json 201 b)"
  shows "\<exists>pre c post stu. copies s = pre @ c # post \<and> c_status c = ''Available'' \<and>
           (truthy (iq_copyId req) \<longrightarrow> iq_copyId req = Some (copyNumber c)) \<and>
           copies s' = pre @ c\<lparr>c_status := ''Issued''\<rparr> # post \<and>
           find (\<lambda>u. u_id u = iq_studentId req) (users s) = Some stu \<and> isActive stu \<and>
           books s' = updateOne (\<lambda>b. b_id b = c_book c)
                      (\<lambda>b. b\<lparr>availableCopies := availableCopies b - 1\<rparr>) (books s) \<and>
           transactions s' = transactions s @ [issuedTxn s (effectiveConfig sv s) stu c now] \<and>
           b = IssueResult (copyNumber c) (issuedTxn s (effectiveConfig sv s) stu c now)
                 (addDays now (issueDaysLimit (effectiveConfig sv s)))"
proof -
  let ?s0 = "case config s of Some c \<Rightarrow> s | None \<Rightarrow> s\<lparr>config := Some (configDefaults sv)\<rparr>"
  have s0: "copies ?s0 = copies s" "users ?s0 = users s" "books ?s0 = books s"
    "transactions ?s0 = transactions s" "nextId ?s0 = nextId s"
    by (simp_all split: option.splits)
  from issueTry_success[OF issueBook_Responded[OF assms]]
  have "issueCheck rej req now logNow (effectiveConfig sv s) ?s0 = (s', Responded (Json 201 b))" .
  from issueCheck_success[OF this] obtain stu where
    stu: "find (\<lambda>u. u_id u = iq_studentId req) (users s) = Some stu" "isActive stu"
    and cl: "issueClaim rej req now logNow (effectiveConfig sv s) stu ?s0 = (s', Responded (Json 201 b))"
    by (auto simp: s0)
  from issueClaim_success[OF cl] stu show ?thesis
    by (simp add: s0 issuedTxn_def) blast
qed

lemma settled_fun:
  "settled sv cfg today retNow txn =
     (\<lambda>t. t\<lparr>returnDate := Some retNow, t_status := ''Returned'',
       fine := Some (computeFine (tzOffset sv) cfg today (dueDate txn)),
       isFinePaid := (computeFine (tzOffset sv) cfg today (dueDate txn) = 0)\<rparr>)"
  by (rule ext) (simp add: settled_def)

lemma returnSettle_success:
  assumes "returnSettle sv rej req today retNow logNow cfg txn stu s = (s', Responded (Json 200 b))"
  shows "\<exists>pre c post u. copies s = pre @ c # post \<and> copyNumber c = rq_copyId req \<and>
           (\<forall>x\<in>set pre. copyNumber x \<noteq> rq_copyId req) \<and>
           copies s' = pre @ c\<lparr>c_status := ''Available''\<rparr> # post \<and>
           books s' = updateOne (\<lambda>b. b_id b = c_book c)
                        (\<lambda>b. b\<lparr>availableCopies := availableCopies b + 1\<rparr>) (books s) \<and>
           transactions s' = updateOne (\<lambda>t. t_id t = t_id txn)
                        (settled sv cfg today retNow txn) (transactions s) \<and>
           stu = Some u \<and>
           b = ReturnResult (computeFine (tzOffset sv) cfg today (dueDate txn)) (u_name u)"
proof -
  let ?P = "\<lambda>c::bookCopy. copyNumber c = rq_copyId req"
  let ?f = "\<lambda>c::bookCopy. c\<lparr>c_status := ''Available''\<rparr>"
  from assms obtain cp where cp: "find ?P (updateOne ?P ?f (copies s)) = Some cp"
    by (auto simp: returnSettle_def await_def Let_def split: option.splits)
  then obtain c where c: "find ?P (copies s) = Some c" and cpc: "cp = ?f c"
    by (auto simp: find_updateOne)
  from updateOne_split[OF c, of ?f] obtain pre post where
    sp: "copies s = pre @ c # post" "\<forall>x\<in>set pre. \<not> ?P x" "?P c"
      "updateOne ?P ?f (copies s) = pre @ ?f c # post"
    by blast
  from assms cp have parts:
    "copies s' = updateOne ?P ?f (copies s)"
    "books s' = updateOne (\<lambda>b. b_id b = c_book cp)
                        (\<lambda>b. b\<lparr>availableCopies := availableCopies b + 1\<rparr>) (books s)"
    "transactions s' = updateOne (\<lambda>t. t_id t = t_id txn)
                        (settled sv cfg today retNow txn) (transactions s)"
    "\<exists>u. stu = Some u \<and>
         b = ReturnResult (computeFine (tzOffset sv) cfg today (dueDate txn)) (u_name u)"
    by (auto simp: returnSettle_def await_def Let_def logAudit_frame settled_fun
        split: option.splits)
  from parts(4) obtain u where u: "stu = Some u"
    "b = ReturnResult (computeFine (tzOffset sv) cfg today (dueDate txn)) (u_name u)" by blast
  have "c_book cp = c_book c" using cpc by simp
  with parts(1-3) sp u show ?thesis
    by (intro exI[of _ pre] exI[of _ c] exI[of _ post] exI[of _ u]) simp
qed

lemma returnFind_success:
  assumes "returnFind sv rej req today retNow logNow cfg s = (s', Responded (Json 200 b))"
  shows "\<exists>txn. find (\<lambda>t. copyId t = rq_copyId req \<and> t_status t = ''Issued'') (transactions s) = Some txn \<and>
           returnSettle sv rej req today retNow logNow cfg txn
             (find (\<lambda>u. u_id u = student txn) (users s)) s = (s', Responded (Json 200 b))"
  using assms
  by (auto simp: returnFind_def await_def split: option.splits if_splits)

lemma returnTry_success:
  assumes "returnTry sv rej req today retNow logNow s = (s', Responded (Json 200 b))"
  shows "returnFind sv rej req today retNow logNow (effectiveConfig sv s)
           (case config s of Some c \<Rightarrow> s | None \<Rightarrow> s\<lparr>config := Some (configDefaults sv)\<rparr>)
         = (s', Responded (Json 200 b))"
  using assms
  by (auto simp: returnTry_def await_def effectiveConfig_def split: option.splits)

lemma returnBook_Responded:
  "returnBook sv rej req today retNow logNow s = (s', Json 200 b) \<Longrightarrow>
     returnTry sv rej req today retNow logNow s = (s', Responded (Json 200 b))"
  by (auto simp: returnBook_def split: prod.splits outcome.splits)

lemma returnBook_success:
  assumes "returnBook sv rej req today retNow logNow s = (s', Json 200 b)"
  shows "\<exists>txn pre c post u.
           find (\<lambda>t. copyId t = rq_copyId req \<and> t_status t = ''Issued'') (transactions s) = Some txn \<and>
           copies s = pre @ c # post \<and> copyNumber c = rq_copyId req \<and>
           (\<forall>x\<in>set pre. copyNumber x \<noteq> rq_copyId req) \<and>
           copies s' = pre @ c\<lparr>c_status := ''Available''\<rparr> # post \<and>
           books s' = updateOne (\<lambda>b. b_id b = c_book c)
                        (\<lambda>b. b\<lparr>availableCopies := availableCopies b + 1\<rparr>) (books s) \<and>
           transactions s' = updateOne (\<lambda>t. t_id t = t_id txn)
                        (settled sv (effectiveConfig sv s) today retNow txn) (transactions s) \<and>
           find (\<lambda>u. u_id u = student txn) (users s) = Some u \<and>
           b = ReturnResult (computeFine (tzOffset sv) (effectiveConfig sv s) today (dueDate txn))
                 (u_name u)"
proof -
  let ?s0 = "case config s of Some c \<Rightarrow> s | None \<Rightarrow> s\<lparr>config := Some (configDefaults sv)\<rparr>"
  have s0: "copies ?s0 = copies s" "users ?s0 = users s" "books ?s0 = books s"
    "transactions ?s0 = transactions s" "nextId ?s0 = nextId s"
    by (simp_all split: option.splits)
  from returnTry_success[OF returnBook_Responded[OF assms]]
  have "returnFind sv rej req today retNow logNow (effectiveConfig sv s) ?s0
          = (s', Responded (Json 200 b))" .
  from returnFind_success[OF this] obtain txn where
    txn: "find (\<lambda>t. copyId t = rq_copyId req \<and> t_status t = ''Issued'') (transactions s) = Some txn"
    and st: "returnSettle sv rej req today retNow logNow (effectiveConfig sv s) txn
             (find (\<lambda>u. u_id u = student txn) (users s)) ?s0 = (s', Responded (Json 200 b))"
    by (auto simp: s0)
  from returnSettle_success[OF st] txn show ?thesis
    unfolding s0 by blast
qed


text \<open>
  Claim C2.  A student who is found and whose transactions with status Issued number at
  least \<open>maxBooksPerStudent\<close> of the configuration in force gets the answer 400 with a
  message (blocked account or limit reached), and the request issues nothing: the copies,
  the books and the transactions are as before.  The calls up to the count resolve.
\<close>

theorem C2_limit:
  assumes "issueBook sv rej req now logNow s = (s', r)"
    and "find (\<lambda>u. u_id u = iq_studentId req) (users s) = Some stu"
    and "maxBooksPerStudent (effectiveConfig sv s) \<le>
           int (length (filter (\<lambda>t. student t = u_id stu \<and> t_status t = ''Issued'')
                  (transactions s)))"
    and "rej ConfigFind = None" "rej ConfigCreate = None" "rej UserFind = None"
      "rej TxnCount = None"
  shows "(\<exists>b. r = Json 400 b \<and> hasMessage b) \<and>
         copies s' = copies s \<and> books s' = books s \<and> transactions s' = transactions s"
proof (cases "config s")
  case None
  with assms show ?thesis
    by (cases "isActive stu")
       (auto simp: issueBook_def issueTry_def issueCheck_def await_def effectiveConfig_def Let_def)
next
  case (Some c)
  with assms show ?thesis
    by (cases "isActive stu")
       (auto simp: issueBook_def issueTry_def issueCheck_def await_def effectiveConfig_def Let_def)
qed

text \<open>
  Claim C3.  An issue answered with 201 changed exactly one copy, from Available to
  Issued, and took 1 off \<open>availableCopies\<close> of the book with the id that the copy
  refers to.  A return answered with 200 set the first copy with the requested number to
  Available and added 1 to \<open>availableCopies\<close> of the book of that copy.
\<close>

theorem C3_counter_and_status:
  "(issueBook sv rej ireq now logNow s = (s', Json 201 b) \<longrightarrow>
      (\<exists>pre c post. copies s = pre @ c # post \<and> c_status c = ''Available'' \<and>
         copies s' = pre @ c\<lparr>c_status := ''Issued''\<rparr> # post \<and>
         books s' = updateOne (\<lambda>k. b_id k = c_book c)
                      (\<lambda>k. k\<lparr>availableCopies := availableCopies k - 1\<rparr>) (books s) \<and>
         find (\<lambda>k. b_id k = c_book c) (books s') =
           map_option (\<lambda>k. k\<lparr>availableCopies := availableCopies k - 1\<rparr>)
             (find (\<lambda>k. b_id k = c_book c) (books s)))) \<and>
   (returnBook sv rej rreq today retNow logNow2 s = (s'', Json 200 b') \<longrightarrow>
      (\<exists>pre c post. copies s = pre @ c # post \<and> copyNumber c = rq_copyId rreq \<and>
         copies s'' = pre @ c\<lparr>c_status := ''Available''\<rparr> # post \<and>
         books s'' = updateOne (\<lambda>k. b_id k = c_book c)
                      (\<lambda>k. k\<lparr>availableCopies := availableCopies k + 1\<rparr>) (books s) \<and>
         find (\<lambda>k. b_id k = c_book c) (books s'') =
           map_option (\<lambda>k. k\<lparr>availableCopies := availableCopies k + 1\<rparr>)
             (find (\<lambda>k. b_id k = c_book c) (books s))))"
proof (intro conjI impI)
  assume "issueBook sv rej ireq now logNow s = (s', Json 201 b)"
  from issueBook_success[OF this] obtain pre c post where
    "copies s = pre @ c # post" "c_status c = ''Available''"
    "copies s' = pre @ c\<lparr>c_status := ''Issued''\<rparr> # post"
    "books s' = updateOne (\<lambda>k. b_id k = c_book c)
                      (\<lambda>k. k\<lparr>availableCopies := availableCopies k - 1\<rparr>) (books s)"
    by blast
  then show "\<exists>pre c post. copies s = pre @ c # post \<and> c_status c = ''Available'' \<and>
         copies s' = pre @ c\<lparr>c_status := ''Issued''\<rparr> # post \<and>
         books s' = updateOne (\<lambda>k. b_id k = c_book c)
                      (\<lambda>k. k\<lparr>availableCopies := availableCopies k - 1\<rparr>) (books s) \<and>
         find (\<lambda>k. b_id k = c_book c) (books s') =
           map_option (\<lambda>k. k\<lparr>availableCopies := availableCopies k - 1\<rparr>)
             (find (\<lambda>k. b_id k = c_book c) (books s))"
    by (intro exI[of _ pre] exI[of _ c] exI[of _ post]) (simp add: find_updateOne)
next
  assume "returnBook sv rej rreq today retNow logNow2 s = (s'', Json 200 b')"
  from returnBook_success[OF this] obtain pre c post where
    "copies s = pre @ c # post" "copyNumber c = rq_copyId rreq"
    "copies s'' = pre @ c\<lparr>c_status := ''Available''\<rparr> # post"
    "books s'' = updateOne (\<lambda>k. b_id k = c_book c)
                      (\<lambda>k. k\<lparr>availableCopies := availableCopies k + 1\<rparr>) (books s)"
    by blast
  then show "\<exists>pre c post. copies s = pre @ c # post \<and> copyNumber c = rq_copyId rreq \<and>
         copies s'' = pre @ c\<lparr>c_status := ''Available''\<rparr> # post \<and>
         books s'' = updateOne (\<lambda>k. b_id k = c_book c)
                      (\<lambda>k. k\<lparr>availableCopies := availableCopies k + 1\<rparr>) (books s) \<and>
         find (\<lambda>k. b_id k = c_book c) (books s'') =
           map_option (\<lambda>k. k\<lparr>availableCopies := availableCopies k + 1\<rparr>)
             (find (\<lambda>k. b_id k = c_book c) (books s))"
    by (intro exI[of _ pre] exI[of _ c] exI[of _ post]) (simp add: find_updateOne)
qed








lemma issueRecord_answers:
  "issueRecord rej req now logNow cfg stu tc s = (s', out) \<Longrightarrow> answeredOrThrew out"
  by (auto simp: issueRecord_def await_def Let_def split: option.splits)

lemma issueClaim_answers:
  "issueClaim rej req now logNow cfg stu s = (s', out) \<Longrightarrow> answeredOrThrew out"
  by (auto simp: issueClaim_def await_def findOneAndUpdate_def
      split: option.splits if_splits dest: issueRecord_answers)

lemma issueCheck_answers:
  "issueCheck rej req now logNow cfg s = (s', out) \<Longrightarrow> answeredOrThrew out"
  by (auto simp: issueCheck_def await_def Let_def
      split: option.splits if_splits dest: issueClaim_answers)

lemma issueTry_answers:
  "issueTry sv rej req now logNow s = (s', out) \<Longrightarrow> answeredOrThrew out"
  by (auto simp: issueTry_def await_def split: option.splits dest: issueCheck_answers)

lemma issueBook_answers:
  assumes "issueBook sv rej req now logNow s = (s', r)"
    and "rej Rollback = None \<or> \<not> truthy (iq_copyId req)"
  shows "answered r"
proof -
  obtain s1 out where t: "issueTry sv rej req now logNow s = (s1, out)" by force
  from issueTry_answers[OF t] assms t show ?thesis
    by (cases out) (auto simp: issueBook_def split: option.splits if_splits)
qed

lemma returnSettle_answers:
  "returnSettle sv rej req today retNow logNow cfg txn stu s = (s', out) \<Longrightarrow> answeredOrThrew out"
  by (auto simp: returnSettle_def await_def Let_def split: option.splits)

lemma returnFind_answers:
  "returnFind sv rej req today retNow logNow cfg s = (s', out) \<Longrightarrow> answeredOrThrew out"
  by (auto simp: returnFind_def await_def split: option.splits if_splits
      dest: returnSettle_answers)

lemma returnTry_answers:
  "returnTry sv rej req today retNow logNow s = (s', out) \<Longrightarrow> answeredOrThrew out"
  by (auto simp: returnTry_def await_def split: option.splits dest: returnFind_answers)

lemma returnBook_answers:
  assumes "returnBook sv rej req today retNow logNow s = (s', r)"
  shows "answered r"
proof -
  obtain s1 out where t: "returnTry sv rej req today retNow logNow s = (s1, out)" by force
  from returnTry_answers[OF t] assms t show ?thesis
    by (cases out) (auto simp: returnBook_def)
qed

lemmas circulation_defs =
  issueBook_def issueTry_def issueCheck_def issueClaim_def issueRecord_def
  returnBook_def returnTry_def returnFind_def returnSettle_def
  await_def findOneAndUpdate_def logAudit_def Let_def

lemmas sample_defs =
  sampleServer_def sampleDb_def sampleBook_def sampleLoan_def asha_def ravi_def
  sampleReturn_def sampleIssue_def strictDb_def ashaAgain_def noFaults_def
  txnCreateFails_def dbDown_def

theorem C2_limit_witness:
  "(\<exists>b. snd (issueBook sampleServer noFaults ashaAgain 1700300000000 1700300000001 strictDb)
          = Json 400 b \<and> hasMessage b) \<and>
   copies (fst (issueBook sampleServer noFaults ashaAgain 1700300000000 1700300000001 strictDb))
     = copies strictDb"
  using C2_limit [of sampleServer noFaults ashaAgain 1700300000000 1700300000001 strictDb _ _ asha,
      OF surjective_pairing]
  by (simp add: sample_defs effectiveConfig_def)

text \<open>
  Claim C8.  With the database out of reach and a copy named in the request, the first
  call of \<open>issueBook\<close> throws, the write that its error handler awaits before answering
  throws as well, and the request gets no answer at all: neither 400, 404 nor 500.
  (\<open>issueBook_answers\<close> and \<open>returnBook_answers\<close> above cover every other request.)
\<close>

theorem C8_issue_unanswered:
  "issueBook sampleServer dbDown sampleIssue 1700300000000 1700300000001 sampleDb
     = (sampleDb, NoResponse)"
  by (simp add: circulation_defs sampleIssue_def dbDown_def)

lemma sampleIssue_runs:
  "\<exists>b. issueBook sampleServer noFaults sampleIssue 1700300000000 1700300000001 sampleDb
     = (fst (issueBook sampleServer noFaults sampleIssue 1700300000000 1700300000001 sampleDb),
        Json 201 b)"
  by (simp add: prod_eq_iff circulation_defs sample_defs)

lemma sampleReturn_runs:
  "\<exists>b. returnBook sampleServer noFaults sampleReturn 1700300000000 1700300000500 1700300000900 sampleDb
     = (fst (returnBook sampleServer noFaults sampleReturn 1700300000000 1700300000500 1700300000900 sampleDb),
        Json 200 b)"
  by (simp add: prod_eq_iff circulation_defs sample_defs)

theorem C3_counter_and_status_witness:
  "(\<exists>pre c post. copies sampleDb = pre @ c # post \<and> c_status c = ''Available'' \<and>
      copies (fst (issueBook sampleServer noFaults sampleIssue 1700300000000 1700300000001 sampleDb))
        = pre @ c\<lparr>c_status := ''Issued''\<rparr> # post \<and>
      find (\<lambda>k. b_id k = c_book c)
        (books (fst (issueBook sampleServer noFaults sampleIssue 1700300000000 1700300000001 sampleDb)))
        = map_option (\<lambda>k. k\<lparr>availableCopies := availableCopies k - 1\<rparr>)
            (find (\<lambda>k. b_id k = c_book c) (books sampleDb))) \<and>
   (\<exists>pre c post. copies sampleDb = pre @ c # post \<and> copyNumber c = ''978-1-1'' \<and>
      copies (fst (returnBook sampleServer noFaults sampleReturn 1700300000000 1700300000500
                     1700300000900 sampleDb))
        = pre @ c\<lparr>c_status := ''Available''\<rparr> # post \<and>
      find (\<lambda>k. b_id k = c_book c)
        (books (fst (returnBook sampleServer noFaults sampleReturn 1700300000000 1700300000500
                       1700300000900 sampleDb)))
        = map_option (\<lambda>k. k\<lparr>availableCopies := availableCopies k + 1\<rparr>)
            (find (\<lambda>k. b_id k = c_book c) (books sampleDb)))"
proof -
  obtain b where i: "issueBook sampleServer noFaults sampleIssue 1700300000000 1700300000001 sampleDb
     = (fst (issueBook sampleServer noFaults sampleIssue 1700300000000 1700300000001 sampleDb),
        Json 201 b)"
    using sampleIssue_runs by blast
  obtain b' where r: "returnBook sampleServer noFaults sampleReturn 1700300000000 1700300000500 1700300000900 sampleDb
     = (fst (returnBook sampleServer noFaults sampleReturn 1700300000000 1700300000500 1700300000900 sampleDb),
        Json 200 b')"
    using sampleReturn_runs by blast
  have rq: "rq_copyId sampleReturn = ''978-1-1''" by (simp add: sampleReturn_def)
  from C3_counter_and_status[THEN conjunct1, rule_format, OF i]
       C3_counter_and_status[THEN conjunct2, rule_format, OF r]
  show ?thesis unfolding rq by blast
qed



section \<open>Counters and audit log\<close>

text \<open>
  Claim C9.  The counters agree with the copies in the new library, after the title is
  created, after its copy is issued and after the status of the copy is edited back to
  Available.  The return of the copy is then answered with 200 and adds 1 to
  \<open>availableCopies\<close> once more: the book counts 2 available copies and has 1 copy.
\<close>

theorem C9_return_overcounts:
  "countersOk newLibrary \<and> countersOk afterCreate \<and> countersOk afterIssue \<and>
   countersOk afterEdit \<and>
   snd lateReturn = Json 200 (ReturnResult 0 ''Asha'') \<and>
   \<not> countersOk (fst lateReturn) \<and>
   map availableCopies (books (fst lateReturn)) = [2] \<and>
   map c_status (copies (fst lateReturn)) = [''Available'']"
  by code_simp

text \<open>
  Claim C10.  When the query resolves, the audit log retrieval answers with the entries
  \<open>ls\<close>: at most 100 of them, all of them when there are fewer, in the order of their
  creation times with the newest first, and no entry left out (\<open>rest\<close>) is newer than
  one that is returned.
\<close>

theorem C10_newest_hundred:
  "\<exists>ls rest. getAuditLogs None s = Json 200 (AuditLogs ls) \<and>
     length ls = min 100 (length (auditLogs s)) \<and> length ls \<le> 100 \<and>
     sorted_wrt (\<lambda>a b. createdAt a \<ge> createdAt b) ls \<and>
     mset (ls @ rest) = mset (auditLogs s) \<and>
     (\<forall>x\<in>set ls. \<forall>y\<in>set rest. createdAt y \<le> createdAt x)"
proof -
  let ?all = "sort_key (\<lambda>l. - createdAt l) (auditLogs s)"
  have "sorted (map (\<lambda>l. - createdAt l) ?all)" by (rule sorted_sort_key)
  then have sw: "sorted_wrt (\<lambda>a b. createdAt a \<ge> createdAt b) ?all"
    by (simp add: sorted_map)
  have split: "take 100 ?all @ drop 100 ?all = ?all" by simp
  from sw have "sorted_wrt (\<lambda>a b. createdAt a \<ge> createdAt b) (take 100 ?all @ drop 100 ?all)"
    by simp
  then have parts: "sorted_wrt (\<lambda>a b. createdAt a \<ge> createdAt b) (take 100 ?all)"
    "\<forall>x\<in>set (take 100 ?all). \<forall>y\<in>set (drop 100 ?all). createdAt y \<le> createdAt x"
    unfolding sorted_wrt_append by auto
  have m: "mset (take 100 ?all @ drop 100 ?all) = mset (auditLogs s)"
    unfolding split by simp
  show ?thesis
    using parts m
    by (intro exI[of _ "take 100 ?all"] exI[of _ "drop 100 ?all"])
       (simp add: getAuditLogs_def min_def)
qed

theorem C10_newest_hundred_witness:
  "\<exists>ls. getAuditLogs None busyDb = Json 200 (AuditLogs ls) \<and> length ls = 100 \<and>
     sorted_wrt (\<lambda>a b. createdAt a \<ge> createdAt b) ls \<and>
     list_all (\<lambda>x. createdAt x \<ge> 50) ls"
proof -
  from C10_newest_hundred[of busyDb] obtain ls where
    a: "getAuditLogs None busyDb = Json 200 (AuditLogs ls)"
    and l: "length ls = min 100 (length (auditLogs busyDb))"
    and s: "sorted_wrt (\<lambda>a b. createdAt a \<ge> createdAt b) ls" by blast
  have "length (auditLogs busyDb) = 150" by (simp add: busyDb_def)
  with l have l100: "length ls = 100" by simp
  have "list_all (\<lambda>x. createdAt x \<ge> 50)
          (take 100 (sort_key (\<lambda>l. - createdAt l) (auditLogs busyDb)))"
    by code_simp
  with a have "list_all (\<lambda>x. createdAt x \<ge> 50) ls"
    by (simp add: getAuditLogs_def)
  with a l100 s show ?thesis by blast
qed

section \<open>The status of a copy\<close>


lemma list_all_deleteOne: "list_all Q xs \<Longrightarrow> list_all Q (deleteOne P xs)"
  by (induction xs) auto



lemma statusesOk_cong: "copies s' = copies s \<Longrightarrow> statusesOk s' = statusesOk s"
  by (simp add: statusesOk_def)



lemma deleteCopy_statuses: "statusesOk s \<Longrightarrow> statusesOk (fst (deleteCopy cid s))"
  by (auto simp: deleteCopy_def Let_def statusesOk_def list_all_deleteOne split: option.splits)













section \<open>The upload\<close>






lemma stored_fields:
  "map copyNumber (stored n docs) = map copyNumber docs"
  "map c_book (stored n docs) = map c_book docs"
  "map c_status (stored n docs) = map c_status docs"
  "length (stored n docs) = length docs"
  by (induction docs arbitrary: n) (simp_all add: stored_def)

lemma insertMany_stored:
  "insertMany docs s =
     s\<lparr>copies := copies s @ stored (nextId s) docs, nextId := nextId s + length docs\<rparr>"
  by (simp add: insertMany_def stored_def)
















section \<open>Where the counters are kept\<close>

text \<open>
  Apart from the return above, the operations keep the counters in step with the copies:
  creating a title and adding copies for a quantity that is not negative, deleting a copy,
  editing a status, an issue that succeeds, and a return of a copy that was not Available.
\<close>

lemma deleteOne_split:
  "find P xs = Some c \<Longrightarrow> \<exists>pre post. xs = pre @ c # post \<and> deleteOne P xs = pre @ post"
proof (induction xs)
  case Nil
  then show ?case by simp
next
  case (Cons x xs)
  show ?case
  proof (cases "P x")
    case True
    with Cons.prems have "x # xs = [] @ c # xs \<and> deleteOne P (x # xs) = [] @ xs" by simp
    then show ?thesis by blast
  next
    case False
    with Cons.prems have "find P xs = Some c" by simp
    from Cons.IH[OF this] obtain pre post where "xs = pre @ c # post" "deleteOne P xs = pre @ post"
      by blast
    with False have "x # xs = (x # pre) @ c # post \<and> deleteOne P (x # xs) = (x # pre) @ post"
      by simp
    then show ?thesis by blast
  qed
qed

lemma distinct_ids_same:
  "distinct (map b_id bs) \<Longrightarrow> a \<in> set bs \<Longrightarrow> b \<in> set bs \<Longrightarrow> b_id a = b_id b \<Longrightarrow> a = b"
  by (auto simp: distinct_map dest: inj_onD)

lemma books_update:
  assumes "distinct (map b_id bs)" "list_all (bookCounted cs) bs"
    and other: "\<And>b. b \<in> set bs \<Longrightarrow> b_id b \<noteq> i \<Longrightarrow> bookCounted cs b \<Longrightarrow> bookCounted cs' b"
    and this: "\<And>b. b \<in> set bs \<Longrightarrow> b_id b = i \<Longrightarrow> bookCounted cs b \<Longrightarrow> bookCounted cs' (f b)"
  shows "list_all (bookCounted cs') (updateOne (\<lambda>b. b_id b = i) f bs)"
  using assms
proof (induction bs)
  case Nil
  then show ?case by simp
next
  case (Cons x xs)
  show ?case
  proof (cases "b_id x = i")
    case True
    from Cons.prems(1) have "b_id x \<notin> set (map b_id xs)" by simp
    then have "\<forall>b\<in>set xs. b_id b \<noteq> b_id x" by (metis image_eqI set_map)
    with True have "\<forall>b\<in>set xs. b_id b \<noteq> i" by simp
    with Cons.prems(2,3) have "list_all (bookCounted cs') xs"
      by (auto simp: list_all_iff)
    moreover from Cons.prems(2,4) True have "bookCounted cs' (f x)" by simp
    ultimately show ?thesis using True by simp
  next
    case False
    have "list_all (bookCounted cs') (updateOne (\<lambda>b. b_id b = i) f xs)"
      using Cons.prems by (intro Cons.IH) auto
    moreover from Cons.prems(2,3) False have "bookCounted cs' x" by simp
    ultimately show ?thesis using False by simp
  qed
qed

lemma books_same:
  assumes "list_all (bookCounted cs) bs"
    and "\<And>b. b \<in> set bs \<Longrightarrow> bookCounted cs b \<Longrightarrow> bookCounted cs' b"
  shows "list_all (bookCounted cs') bs"
  using assms by (auto simp: list_all_iff)

text \<open>One copy changes its status and nothing else.\<close>

lemma restatus_counted:
  assumes "bookCounted (pre @ c # post) b"
  shows "bookCounted (pre @ c\<lparr>c_status := st\<rparr> # post)
           (b\<lparr>availableCopies := availableCopies b
                 + (if c_book c = b_id b \<and> st = ''Available'' then 1 else 0)
                 - (if c_book c = b_id b \<and> c_status c = ''Available'' then 1 else 0)\<rparr>)"
  using assms by (auto simp: bookCounted_def)

lemma restatus_other:
  assumes "bookCounted (pre @ c # post) b" "c_book c \<noteq> b_id b"
  shows "bookCounted (pre @ c\<lparr>c_status := st\<rparr> # post) b"
  using assms by (auto simp: bookCounted_def)

lemma find_first:
  "\<forall>x\<in>set pre. \<not> P x \<Longrightarrow> P c \<Longrightarrow> find P (pre @ c # post) = Some c"
  by (induction pre) auto

lemma remove_counted:
  assumes "bookCounted (pre @ c # post) b"
  shows "bookCounted (pre @ post)
           (b\<lparr>totalCopies := totalCopies b - (if c_book c = b_id b then 1 else 0),
              availableCopies := availableCopies b
                 - (if c_book c = b_id b \<and> c_status c = ''Available'' then 1 else 0)\<rparr>)"
  using assms by (auto simp: bookCounted_def)

lemma remove_other:
  assumes "bookCounted (pre @ c # post) b" "c_book c \<noteq> b_id b"
  shows "bookCounted (pre @ post) b"
  using assms by (auto simp: bookCounted_def)

lemma append_counted:
  assumes "bookCounted cs b" "\<forall>c\<in>set new. c_book c = b_id b \<and> c_status c = ''Available''"
  shows "bookCounted (cs @ new)
           (b\<lparr>totalCopies := totalCopies b + int (length new),
              availableCopies := availableCopies b + int (length new)\<rparr>)"
proof -
  from assms(2) have "filter (\<lambda>c. c_book c = b_id b \<and> c_status c = ''Available'') new = new"
    "filter (\<lambda>c. c_book c = b_id b) new = new"
    by (simp_all add: filter_id_conv)
  with assms(1) show ?thesis by (simp add: bookCounted_def)
qed

lemma append_other:
  assumes "bookCounted cs b" "\<forall>c\<in>set new. c_book c \<noteq> b_id b"
  shows "bookCounted (cs @ new) b"
proof -
  from assms(2) have "filter (\<lambda>c. c_book c = b_id b \<and> c_status c = ''Available'') new = []"
    "filter (\<lambda>c. c_book c = b_id b) new = []"
    by (simp_all add: filter_empty_conv)
  with assms(1) show ?thesis by (simp add: bookCounted_def)
qed

lemma issueBook_counters:
  assumes ok: "countersOk s" and d: "booksDistinct s"
    and run: "issueBook sv rej req now logNow s = (s', Json 201 b)"
  shows "countersOk s'"
proof -
  from issueBook_success[OF run] obtain pre c post where
    c: "copies s = pre @ c # post" "c_status c = ''Available''"
      "copies s' = pre @ c\<lparr>c_status := ''Issued''\<rparr> # post"
      "books s' = updateOne (\<lambda>k. b_id k = c_book c)
                      (\<lambda>k. k\<lparr>availableCopies := availableCopies k - 1\<rparr>) (books s)"
    by blast
  have "list_all (bookCounted (copies s'))
          (updateOne (\<lambda>k. b_id k = c_book c)
             (\<lambda>k. k\<lparr>availableCopies := availableCopies k - 1\<rparr>) (books s))"
  proof (rule books_update[where cs = "copies s"])
    show "distinct (map b_id (books s))" using d by (simp add: booksDistinct_def)
    show "list_all (bookCounted (copies s)) (books s)" using ok by (simp add: countersOk_def)
  next
    fix k assume "b_id k \<noteq> c_book c" "bookCounted (copies s) k"
    then show "bookCounted (copies s') k"
      unfolding c(1,3) by (intro restatus_other) auto
  next
    fix k assume k: "b_id k = c_book c" "bookCounted (copies s) k"
    from restatus_counted[OF k(2)[unfolded c(1)], of "''Issued''"] k(1) c(2)
    show "bookCounted (copies s') (k\<lparr>availableCopies := availableCopies k - 1\<rparr>)"
      unfolding c(3) by simp
  qed
  then show ?thesis by (simp add: countersOk_def c(4))
qed

lemma returnBook_counters:
  assumes ok: "countersOk s" and d: "booksDistinct s"
    and run: "returnBook sv rej req today retNow logNow s = (s', Json 200 b)"
    and st: "\<And>c. find (\<lambda>c. copyNumber c = rq_copyId req) (copies s) = Some c
               \<Longrightarrow> c_status c \<noteq> ''Available''"
  shows "countersOk s'"
proof -
  from returnBook_success[OF run] obtain pre c post where
    c: "copies s = pre @ c # post" "copyNumber c = rq_copyId req"
      "\<forall>x\<in>set pre. copyNumber x \<noteq> rq_copyId req"
      "copies s' = pre @ c\<lparr>c_status := ''Available''\<rparr> # post"
      "books s' = updateOne (\<lambda>k. b_id k = c_book c)
                      (\<lambda>k. k\<lparr>availableCopies := availableCopies k + 1\<rparr>) (books s)"
    by blast
  have "find (\<lambda>c. copyNumber c = rq_copyId req) (copies s) = Some c"
    unfolding c(1) using c(2,3) by (intro find_first) auto
  from st[OF this] have na: "c_status c \<noteq> ''Available''" .
  have "list_all (bookCounted (copies s'))
          (updateOne (\<lambda>k. b_id k = c_book c)
             (\<lambda>k. k\<lparr>availableCopies := availableCopies k + 1\<rparr>) (books s))"
  proof (rule books_update[where cs = "copies s"])
    show "distinct (map b_id (books s))" using d by (simp add: booksDistinct_def)
    show "list_all (bookCounted (copies s)) (books s)" using ok by (simp add: countersOk_def)
  next
    fix k assume "b_id k \<noteq> c_book c" "bookCounted (copies s) k"
    then show "bookCounted (copies s') k"
      unfolding c(1,4) by (intro restatus_other) auto
  next
    fix k assume k: "b_id k = c_book c" "bookCounted (copies s) k"
    from restatus_counted[OF k(2)[unfolded c(1)], of "''Available''"] k(1) na
    show "bookCounted (copies s') (k\<lparr>availableCopies := availableCopies k + 1\<rparr>)"
      unfolding c(4) by simp
  qed
  then show ?thesis by (simp add: countersOk_def c(5))
qed

lemma find_id_unique:
  assumes "distinct (map b_id bs)" "find (\<lambda>k. b_id k = i) bs = Some bk" "k \<in> set bs" "b_id k = i"
  shows "k = bk"
proof -
  from find_Some_mem[OF assms(2)] have "bk \<in> set bs" "b_id bk = i" by simp_all
  with assms(1,3,4) show ?thesis by (intro distinct_ids_same[of bs]) simp_all
qed

lemma updateCopyStatus_counters:
  assumes ok: "countersOk s" and d: "booksDistinct s"
  shows "countersOk (fst (updateCopyStatus sv cid st s))"
proof (cases "find (\<lambda>c. c_id c = cid) (copies s)")
  case None
  with ok show ?thesis by (simp add: updateCopyStatus_def)
next
  case (Some cp)
  let ?delta = "(if c_status cp = ''Available'' \<and> st \<noteq> ''Available'' then - 1
                 else if c_status cp \<noteq> ''Available'' \<and> st = ''Available'' then 1 else 0) :: int"
  let ?bko = "find (\<lambda>k. b_id k = c_book cp) (books s)"
  from updateOne_split[OF Some, of "\<lambda>c. c\<lparr>c_status := st\<rparr>"] obtain pre post where
    sp: "copies s = pre @ cp # post"
      "updateOne (\<lambda>c. c_id c = cid) (\<lambda>c. c\<lparr>c_status := st\<rparr>) (copies s)
         = pre @ cp\<lparr>c_status := st\<rparr> # post"
    by blast
  have dl: "?delta = (if st = ''Available'' then 1 else 0)
                   - (if c_status cp = ''Available'' then 1 else 0)" by simp
  have bs: "list_all (bookCounted (copies s)) (books s)" using ok by (simp add: countersOk_def)
  have dd: "distinct (map b_id (books s))" using d by (simp add: booksDistinct_def)
  show ?thesis
  proof (cases "(?delta \<noteq> 0 \<and> ?bko = None) \<or> \<not> statusValid sv st")
    case True
    with ok Some show ?thesis by (auto simp: updateCopyStatus_def Let_def)
  next
    case False
    show ?thesis
    proof (cases ?bko)
      case None
      then have nb: "\<forall>k\<in>set (books s). b_id k \<noteq> c_book cp" by (simp add: find_None_all)
      have "list_all (bookCounted (pre @ cp\<lparr>c_status := st\<rparr> # post)) (books s)"
      proof (rule books_same[OF bs])
        fix k assume "k \<in> set (books s)" "bookCounted (copies s) k"
        with nb show "bookCounted (pre @ cp\<lparr>c_status := st\<rparr> # post) k"
          unfolding sp(1) by (intro restatus_other) auto
      qed
      with Some None False sp(2) show ?thesis
        by (simp add: updateCopyStatus_def Let_def countersOk_def)
    next
      case (Some bk)
      from find_Some_mem[OF Some] have bk: "bk \<in> set (books s)" "b_id bk = c_book cp" by simp_all
      have "list_all (bookCounted (pre @ cp\<lparr>c_status := st\<rparr> # post))
              (updateOne (\<lambda>k. b_id k = c_book cp)
                 (\<lambda>k. k\<lparr>availableCopies := availableCopies bk + ?delta\<rparr>) (books s))"
      proof (rule books_update[OF dd bs])
        fix k assume "b_id k \<noteq> c_book cp" "bookCounted (copies s) k"
        then show "bookCounted (pre @ cp\<lparr>c_status := st\<rparr> # post) k"
          unfolding sp(1) by (intro restatus_other) auto
      next
        fix k assume k: "k \<in> set (books s)" "b_id k = c_book cp" "bookCounted (copies s) k"
        from find_id_unique[OF dd Some k(1,2)] have kb: "k = bk" .
        from restatus_counted[OF k(3)[unfolded sp(1)], of st] k(2)
        show "bookCounted (pre @ cp\<lparr>c_status := st\<rparr> # post)
                (k\<lparr>availableCopies := availableCopies bk + ?delta\<rparr>)"
          unfolding kb dl by (simp add: algebra_simps)
      qed
      with \<open>find (\<lambda>c. c_id c = cid) (copies s) = Some cp\<close> Some False sp(2) bk show ?thesis
        by (simp add: updateCopyStatus_def Let_def countersOk_def)
    qed
  qed
qed

lemma deleteCopy_counters:
  assumes ok: "countersOk s" and d: "booksDistinct s"
  shows "countersOk (fst (deleteCopy cid s))"
proof (cases "find (\<lambda>c. c_id c = cid) (copies s)")
  case None
  with ok show ?thesis by (simp add: deleteCopy_def)
next
  case (Some cp)
  let ?bko = "find (\<lambda>k. b_id k = c_book cp) (books s)"
  from deleteOne_split[OF Some] obtain pre post where
    sp: "copies s = pre @ cp # post" "deleteOne (\<lambda>c. c_id c = cid) (copies s) = pre @ post"
    by blast
  have bs: "list_all (bookCounted (copies s)) (books s)" using ok by (simp add: countersOk_def)
  have dd: "distinct (map b_id (books s))" using d by (simp add: booksDistinct_def)
  show ?thesis
  proof (cases ?bko)
    case None
    then have nb: "\<forall>k\<in>set (books s). b_id k \<noteq> c_book cp" by (simp add: find_None_all)
    have "list_all (bookCounted (pre @ post)) (books s)"
    proof (rule books_same[OF bs])
      fix k assume "k \<in> set (books s)" "bookCounted (copies s) k"
      with nb show "bookCounted (pre @ post) k"
        unfolding sp(1) by (intro remove_other[of pre cp post]) auto
    qed
    with \<open>find (\<lambda>c. c_id c = cid) (copies s) = Some cp\<close> None sp(2) show ?thesis
      by (simp add: deleteCopy_def Let_def countersOk_def)
  next
    case (Some bk)
    from find_Some_mem[OF Some] have bk: "bk \<in> set (books s)" "b_id bk = c_book cp" by simp_all
    let ?avail = "if c_status cp = ''Available'' then availableCopies bk - 1 else availableCopies bk"
    have "list_all (bookCounted (pre @ post))
            (updateOne (\<lambda>k. b_id k = c_book cp)
               (\<lambda>k. k\<lparr>totalCopies := totalCopies bk - 1, availableCopies := ?avail\<rparr>) (books s))"
    proof (rule books_update[OF dd bs])
      fix k assume "b_id k \<noteq> c_book cp" "bookCounted (copies s) k"
      then show "bookCounted (pre @ post) k"
        unfolding sp(1) by (intro remove_other[of pre cp post]) auto
    next
      fix k assume k: "k \<in> set (books s)" "b_id k = c_book cp" "bookCounted (copies s) k"
      from find_id_unique[OF dd Some k(1,2)] have kb: "k = bk" .
      from remove_counted[OF k(3)[unfolded sp(1)]] k(2)
      show "bookCounted (pre @ post)
              (k\<lparr>totalCopies := totalCopies bk - 1, availableCopies := ?avail\<rparr>)"
        unfolding kb by (auto simp: bookCounted_def)
    qed
    with \<open>find (\<lambda>c. c_id c = cid) (copies s) = Some cp\<close> Some sp(2) bk show ?thesis
      by (simp add: deleteCopy_def Let_def countersOk_def)
  qed
qed

lemma stored_all:
  "\<forall>d\<in>set docs. c_book d = i \<and> c_status d = st \<Longrightarrow>
     \<forall>c\<in>set (stored n docs). c_book c = i \<and> c_status c = st"
  by (induction docs arbitrary: n) (simp_all add: stored_def)

lemma addCopies_counters:
  assumes ok: "countersOk s" and d: "booksDistinct s" and nn: "0 \<le> ac_count req"
  shows "countersOk (fst (addCopies req s))"
proof (cases "find (\<lambda>k. b_id k = ac_bookId req) (books s)")
  case None
  with ok show ?thesis by (simp add: addCopies_def)
next
  case (Some bk)
  let ?cps = "map (\<lambda>i. \<lparr>c_book = b_id bk,
                         copyNumber = isbn bk @ ''-'' @ showInt (totalCopies bk + 1 + i),
                         c_status = ''Available''\<rparr>) [0..ac_count req - 1]"
  let ?new = "stored (nextId s) ?cps"
  have len: "int (length ?new) = ac_count req" using nn by (simp add: stored_fields)
  have new: "\<forall>c\<in>set ?new. c_book c = b_id bk \<and> c_status c = ''Available''"
    by (rule stored_all) simp
  have bs: "list_all (bookCounted (copies s)) (books s)" using ok by (simp add: countersOk_def)
  have dd: "distinct (map b_id (books s))" using d by (simp add: booksDistinct_def)
  have "list_all (bookCounted (copies s @ ?new))
          (updateOne (\<lambda>k. b_id k = b_id bk)
             (\<lambda>k. k\<lparr>totalCopies := totalCopies bk + ac_count req,
                    availableCopies := availableCopies bk + ac_count req\<rparr>) (books s))"
  proof (rule books_update[OF dd bs])
    fix k assume "b_id k \<noteq> b_id bk" "bookCounted (copies s) k"
    with new show "bookCounted (copies s @ ?new) k"
      by (intro append_other) auto
  next
    fix k assume k: "k \<in> set (books s)" "b_id k = b_id bk" "bookCounted (copies s) k"
    from find_Some_mem[OF Some] have "b_id bk = ac_bookId req" by simp
    with find_id_unique[OF dd Some k(1)] k(2) have kb: "k = bk" by simp
    from append_counted[OF k(3)[unfolded kb] new]
    show "bookCounted (copies s @ ?new)
            (k\<lparr>totalCopies := totalCopies bk + ac_count req,
               availableCopies := availableCopies bk + ac_count req\<rparr>)"
      unfolding kb len .
  qed
  with Some show ?thesis
    by (simp add: addCopies_def Let_def insertMany_stored countersOk_def)
qed

lemma createBook_counters:
  assumes ok: "countersOk s" and fresh: "idsFresh s" and refs: "refsFresh s"
    and nn: "0 \<le> cb_quantity req"
  shows "countersOk (fst (createBook req s))"
proof (cases "find (\<lambda>code. code = cb_department req) (departments s) \<noteq> None \<and>
              find (\<lambda>k. isbn k = cb_isbn req) (books s) = None")
  case False
  with ok show ?thesis by (auto simp: createBook_def split: option.splits)
next
  case True
  let ?nb = "\<lparr>b_id = nextId s, title = cb_title req, author = cb_author req,
              isbn = cb_isbn req, department = cb_department req,
              totalCopies = cb_quantity req, availableCopies = cb_quantity req\<rparr>"
  let ?cps = "map (\<lambda>i. \<lparr>c_book = nextId s, copyNumber = cb_isbn req @ ''-'' @ showInt i,
                         c_status = ''Available''\<rparr>) [1..cb_quantity req]"
  let ?new = "stored (Suc (nextId s)) ?cps"
  have len: "int (length ?new) = cb_quantity req" using nn by (simp add: stored_fields)
  have new: "\<forall>c\<in>set ?new. c_book c = nextId s \<and> c_status c = ''Available''"
    by (rule stored_all) simp
  have bs: "list_all (bookCounted (copies s)) (books s)" using ok by (simp add: countersOk_def)
  have old: "list_all (bookCounted (copies s @ ?new)) (books s)"
  proof (rule books_same[OF bs])
    fix k assume "k \<in> set (books s)" "bookCounted (copies s) k"
    moreover from this(1) fresh have "b_id k \<noteq> nextId s"
      by (auto simp: idsFresh_def list_all_iff)
    ultimately show "bookCounted (copies s @ ?new) k"
      using new by (intro append_other) auto
  qed
  from refs have "\<forall>c\<in>set (copies s). c_book c \<noteq> nextId s"
    by (auto simp: refsFresh_def list_all_iff)
  then have "filter (\<lambda>c. c_book c = nextId s \<and> c_status c = ''Available'') (copies s) = []"
    "filter (\<lambda>c. c_book c = nextId s) (copies s) = []"
    by (simp_all add: filter_empty_conv)
  then have "bookCounted (copies s) (?nb\<lparr>totalCopies := 0, availableCopies := 0\<rparr>)"
    by (simp add: bookCounted_def)
  from append_counted[OF this, of ?new] new len
  have "bookCounted (copies s @ ?new) ?nb" by simp
  with old True show ?thesis
    by (auto simp: createBook_def Let_def insertMany_stored countersOk_def)
qed

end
